theory Spec2Isabelle
  imports Main
begin

section \<open>The translator for expressions over INT with pow, + and *\<close>

text \<open>
  The program is translator.py: a scanner (class Scanner), a recursive-descent parser
  (class Parser) and an evaluator (class SemanticAnalyzer). Each is modelled below with
  its mutable fields as an explicit state that is passed along and returned.

  Conventions of the model.
  \<^item> A character of the source text is a \<open>char\<close>, read as the Unicode code point of the
    same number, so the model covers the texts whose code points are below 256.
  \<^item> Python integers are \<open>int\<close>. The interpreter refuses to convert between integers and
    decimal text of more than 4300 digits (\<open>sys.int_info.default_max_str_digits\<close>, the
    default of CPython since 3.11): \<open>int\<close> of such a text and the formatting of such an
    integer in an f-string raise ValueError. Both are modelled. The depth of the call
    stack and the size of memory are not.
  \<^item> The formatted message of a diagnostic is a constructor that keeps the values the
    message is formatted from, together with the line and column the code passes.
\<close>

subsection \<open>Tokens\<close>

datatype token_type = INT_T | POW | LPAREN | RPAREN | COMMA | PLUS | MULT | EOF | ERROR

text \<open>The value of a token: None, an integer, or a string.\<close>

datatype payload = NoValue | IntValue int | StrValue string

record token =
  ttype :: token_type
  tvalue :: payload
  tline :: nat
  tcol :: nat

definition Token :: "token_type \<Rightarrow> payload \<Rightarrow> nat \<Rightarrow> nat \<Rightarrow> token" where
  "Token t v l c = \<lparr>ttype = t, tvalue = v, tline = l, tcol = c\<rparr>"

subsection \<open>Scanner\<close>

datatype scan_message =
    NegativeNumber int
  | InvalidNumber string
  | UnknownIdentifier char
  | UnknownChar char

datatype scan_error = ScanError nat nat scan_message

record scanner =
  sc_tokens :: "token list"
  sc_line :: nat
  sc_col :: nat
  sc_errors :: "scan_error list"

definition Scanner_init :: scanner where
  "Scanner_init = \<lparr>sc_tokens = [], sc_line = 1, sc_col = 1, sc_errors = []\<rparr>"

definition add_token :: "token \<Rightarrow> scanner \<Rightarrow> scanner" where
  "add_token t st = st\<lparr>sc_tokens := sc_tokens st @ [t]\<rparr>"

definition scan_add_error :: "scan_message \<Rightarrow> nat \<Rightarrow> nat \<Rightarrow> scanner \<Rightarrow> scanner" where
  "scan_add_error m l c st = st\<lparr>sc_errors := sc_errors st @ [ScanError l c m]\<rparr>"

text \<open>
  \<open>str.isdigit\<close> on the code points below 256: the ASCII digits and the superscript
  digits U+00B2, U+00B3 and U+00B9 (characters of Unicode type Digit that are not
  decimal).
\<close>

definition ascii_digit :: "char \<Rightarrow> bool" where
  "ascii_digit c = (c \<in> set ''0123456789'')"

definition isdigit :: "char \<Rightarrow> bool" where
  "isdigit c = (ascii_digit c \<or> c = CHR 0xB2 \<or> c = CHR 0xB3 \<or> c = CHR 0xB9)"

definition digit_value :: "char \<Rightarrow> int" where
  "digit_value c = int (of_char c - (48::nat))"

text \<open>The largest number of decimal digits that the interpreter converts.\<close>

definition max_str_digits :: nat where
  "max_str_digits = 4300"

text \<open>
  \<open>int(num_str)\<close> on a non-empty run of \<open>isdigit\<close> characters: the decimal value when
  every character is a decimal digit and there are at most \<open>max_str_digits\<close> of them
  (leading zeros count), ValueError (None) otherwise.
\<close>

definition py_int :: "string \<Rightarrow> int option" where
  "py_int s = (if s \<noteq> [] \<and> list_all ascii_digit s \<and> length s \<le> max_str_digits
               then Some (foldl (\<lambda>acc c. 10 * acc + digit_value c) 0 s)
               else None)"

text \<open>
  The body of the digit branch after the inner loop has collected \<open>num_str\<close>: the
  column has advanced by the length of the run, the token is placed at \<open>start_col\<close>.
\<close>

definition scan_number :: "string \<Rightarrow> scanner \<Rightarrow> scanner" where
  "scan_number num_str st =
     (let start_col = sc_col st;
          st1 = st\<lparr>sc_col := sc_col st + length num_str\<rparr>
      in case py_int num_str of
           Some v \<Rightarrow>
             (if v < 0
              then add_token (Token ERROR (IntValue v) (sc_line st1) start_col)
                     (scan_add_error (NegativeNumber v) (sc_line st1) start_col st1)
              else add_token (Token INT_T (IntValue v) (sc_line st1) start_col) st1)
         | None \<Rightarrow>
             add_token (Token ERROR (StrValue num_str) (sc_line st1) start_col)
               (scan_add_error (InvalidNumber num_str) (sc_line st1) start_col st1))"

text \<open>A one-character token: append it at the current position, advance one column.\<close>

definition scan_single :: "token_type \<Rightarrow> scanner \<Rightarrow> scanner" where
  "scan_single t st =
     (add_token (Token t NoValue (sc_line st) (sc_col st)) st)\<lparr>sc_col := sc_col st + 1\<rparr>"

definition scan_pow :: "scanner \<Rightarrow> scanner" where
  "scan_pow st =
     (add_token (Token POW NoValue (sc_line st) (sc_col st)) st)\<lparr>sc_col := sc_col st + 3\<rparr>"

definition scan_bad :: "scan_message \<Rightarrow> char \<Rightarrow> scanner \<Rightarrow> scanner" where
  "scan_bad m ch st =
     (add_token (Token ERROR (StrValue [ch]) (sc_line st) (sc_col st))
        (scan_add_error m (sc_line st) (sc_col st) st))\<lparr>sc_col := sc_col st + 1\<rparr>"

text \<open>
  The while loop of \<open>Scanner.scan\<close>. The first argument is the unread text
  \<open>source[pos:]\<close>; consuming k characters is dropping them.
\<close>

function scan_loop :: "string \<Rightarrow> scanner \<Rightarrow> scanner" where
  "scan_loop [] st = st"
| "scan_loop (ch # rest) st =
     (if ch = CHR '' '' \<or> ch = CHR 0x09 then
        scan_loop rest (st\<lparr>sc_col := sc_col st + 1\<rparr>)
      else if ch = CHR 0x0A then
        scan_loop rest (st\<lparr>sc_line := sc_line st + 1, sc_col := 1\<rparr>)
      else if isdigit ch then
        scan_loop (dropWhile isdigit (ch # rest))
          (scan_number (takeWhile isdigit (ch # rest)) st)
      else if ch = CHR ''p'' then
        (if 2 < length (ch # rest) \<and> take 3 (ch # rest) = ''pow''
         then scan_loop (drop 3 (ch # rest)) (scan_pow st)
         else scan_loop rest (scan_bad (UnknownIdentifier ch) ch st))
      else if ch = CHR ''('' then scan_loop rest (scan_single LPAREN st)
      else if ch = CHR '')'' then scan_loop rest (scan_single RPAREN st)
      else if ch = CHR '','' then scan_loop rest (scan_single COMMA st)
      else if ch = CHR ''+'' then scan_loop rest (scan_single PLUS st)
      else if ch = CHR ''*'' then scan_loop rest (scan_single MULT st)
      else scan_loop rest (scan_bad (UnknownChar ch) ch st))"
  by pat_completeness auto
termination
proof (relation "measure (\<lambda>(s, st). length s)")
  fix ch :: char and rest :: string and st :: scanner
  assume "isdigit ch"
  then show "((dropWhile isdigit (ch # rest), scan_number (takeWhile isdigit (ch # rest)) st),
              (ch # rest, st)) \<in> measure (\<lambda>(s, st). length s)"
    using length_dropWhile_le [of isdigit rest] by simp
qed auto

text \<open>\<open>Scanner.scan\<close>: run the loop, then append the EOF token at the final position.\<close>

definition scan_state :: "string \<Rightarrow> scanner" where
  "scan_state source =
     (let st = scan_loop source Scanner_init
      in add_token (Token EOF NoValue (sc_line st) (sc_col st)) st)"

definition scan :: "string \<Rightarrow> token list" where
  "scan source = sc_tokens (scan_state source)"

definition scan_errors :: "string \<Rightarrow> scan_error list" where
  "scan_errors source = sc_errors (scan_state source)"

subsection \<open>Parser\<close>

text \<open>
  Exceptions that the parser and the evaluator do not catch: reading \<open>.type\<close> of a
  \<open>current_token\<close> that is None, an index outside a list, an operation on a value of
  the wrong type, and the formatting of an integer of more than \<open>max_str_digits\<close> digits.
\<close>

datatype exn = AttributeError | IndexError | TypeError | ValueError

text \<open>The tuples the parser builds: \<open>('INT', v)\<close>, \<open>('+', l, r)\<close>, \<open>('*', l, r)\<close>, \<open>('pow', a, b)\<close>.\<close>

datatype ast = INT_node payload | Add_node ast ast | Mul_node ast ast | Pow_node ast ast

datatype syntax_message =
    Expected token_type token_type
  | ExpectedComma
  | ExpectedRParen
  | ExpectedIntOrPow token_type
  | TrailingToken token_type

datatype syntax_error = SyntaxError nat nat syntax_message

record parser =
  tokens :: "token list"
  pos :: nat
  current_token :: "token option"
  errors :: "syntax_error list"

type_synonym 'a presult = "exn + 'a \<times> parser"

definition index :: "'a list \<Rightarrow> nat \<Rightarrow> exn + 'a" where
  "index xs i = (if i < length xs then Inr (xs ! i) else Inl IndexError)"

definition advance :: "parser \<Rightarrow> exn + parser" where
  "advance st =
     (if pos st < length (tokens st)
      then (case index (tokens st) (pos st) of
              Inl e \<Rightarrow> Inl e
            | Inr t \<Rightarrow> Inr (st\<lparr>current_token := Some t, pos := pos st + 1\<rparr>))
      else Inr st)"

definition Parser_init :: "token list \<Rightarrow> exn + parser" where
  "Parser_init ts = advance \<lparr>tokens = ts, pos = 0, current_token = None, errors = []\<rparr>"

definition add_error :: "syntax_message \<Rightarrow> nat \<Rightarrow> nat \<Rightarrow> parser \<Rightarrow> parser" where
  "add_error m l c st = st\<lparr>errors := errors st @ [SyntaxError l c m]\<rparr>"

definition match :: "token_type \<Rightarrow> parser \<Rightarrow> token option presult" where
  "match expected_type st =
     (case current_token st of
        None \<Rightarrow> Inl AttributeError
      | Some tok \<Rightarrow>
          if ttype tok = expected_type
          then (case advance st of Inl e \<Rightarrow> Inl e | Inr st' \<Rightarrow> Inr (Some tok, st'))
          else Inr (None, add_error (Expected expected_type (ttype tok)) (tline tok) (tcol tok) st))"

text \<open>
  \<open>parse_sum_tail\<close> and \<open>parse_prod_tail\<close> return the tuple \<open>('+',)\<close> or \<open>('*',)\<close>, or
  None; the model returns True for the tuple.
\<close>

definition parse_tail :: "token_type \<Rightarrow> parser \<Rightarrow> bool presult" where
  "parse_tail op st =
     (case current_token st of
        None \<Rightarrow> Inl AttributeError
      | Some tok \<Rightarrow>
          if ttype tok = op
          then (case match op st of
                  Inl e \<Rightarrow> Inl e
                | Inr (None, st') \<Rightarrow> Inr (False, st')
                | Inr (Some t, st') \<Rightarrow> Inr (True, st'))
          else Inr (False, st))"

definition parse_sum_tail :: "parser \<Rightarrow> bool presult" where
  "parse_sum_tail = parse_tail PLUS"

definition parse_prod_tail :: "parser \<Rightarrow> bool presult" where
  "parse_prod_tail = parse_tail MULT"

text \<open>
  The nonterminals call each other recursively, so they take fuel: the first argument
  bounds the depth of calls still allowed, and None is the result of running out of it.
  An exception is \<open>Some (Inl e)\<close>, a normal return \<open>Some (Inr (result, state))\<close>.
\<close>

definition ret :: "'a \<Rightarrow> parser \<Rightarrow> 'a presult option" where
  "ret a st = Some (Inr (a, st))"

definition bindP :: "'a presult option \<Rightarrow> ('a \<Rightarrow> parser \<Rightarrow> 'b presult option) \<Rightarrow> 'b presult option" where
  "bindP m f = (case m of None \<Rightarrow> None | Some (Inl e) \<Rightarrow> Some (Inl e) | Some (Inr (a, st)) \<Rightarrow> f a st)"

text \<open>The two diagnostics that \<open>parse_atom\<close> adds itself are placed at the current token.\<close>

definition error_here :: "syntax_message \<Rightarrow> parser \<Rightarrow> ast option presult option" where
  "error_here m st =
     (case current_token st of
        None \<Rightarrow> Some (Inl AttributeError)
      | Some tok \<Rightarrow> ret None (add_error m (tline tok) (tcol tok) st))"

fun parse_expr :: "nat \<Rightarrow> parser \<Rightarrow> ast option presult option"
  and parse_sum :: "nat \<Rightarrow> parser \<Rightarrow> ast option presult option"
  and sum_loop :: "nat \<Rightarrow> ast \<Rightarrow> parser \<Rightarrow> ast option presult option"
  and parse_prod :: "nat \<Rightarrow> parser \<Rightarrow> ast option presult option"
  and prod_loop :: "nat \<Rightarrow> ast \<Rightarrow> parser \<Rightarrow> ast option presult option"
  and parse_atom :: "nat \<Rightarrow> parser \<Rightarrow> ast option presult option"
where
  "parse_expr n st = parse_sum n st"
| "parse_sum n st =
     bindP (parse_prod n st) (\<lambda>node st1.
       case node of
         None \<Rightarrow> ret None st1
       | Some nd \<Rightarrow>
           bindP (Some (parse_sum_tail st1)) (\<lambda>sum_tail_node st2.
             if sum_tail_node then sum_loop n nd st2 else ret (Some nd) st2))"
| "sum_loop 0 node st = None"
| "sum_loop (Suc n) node st =
     bindP (parse_prod (Suc n) st) (\<lambda>right st1.
       case right of
         None \<Rightarrow> ret None st1
       | Some r \<Rightarrow>
           bindP (Some (parse_sum_tail st1)) (\<lambda>sum_tail_node st2.
             if sum_tail_node then sum_loop n (Add_node node r) st2
             else ret (Some (Add_node node r)) st2))"
| "parse_prod n st =
     bindP (parse_atom n st) (\<lambda>node st1.
       case node of
         None \<Rightarrow> ret None st1
       | Some nd \<Rightarrow>
           bindP (Some (parse_prod_tail st1)) (\<lambda>prod_tail_node st2.
             if prod_tail_node then prod_loop n nd st2 else ret (Some nd) st2))"
| "prod_loop 0 node st = None"
| "prod_loop (Suc n) node st =
     bindP (parse_atom (Suc n) st) (\<lambda>right st1.
       case right of
         None \<Rightarrow> ret None st1
       | Some r \<Rightarrow>
           bindP (Some (parse_prod_tail st1)) (\<lambda>prod_tail_node st2.
             if prod_tail_node then prod_loop n (Mul_node node r) st2
             else ret (Some (Mul_node node r)) st2))"
| "parse_atom 0 st = None"
| "parse_atom (Suc n) st =
     (case current_token st of
        None \<Rightarrow> Some (Inl AttributeError)
      | Some tok \<Rightarrow>
          if ttype tok = INT_T then
            bindP (Some (match INT_T st)) (\<lambda>token st1.
              case token of
                None \<Rightarrow> ret None st1
              | Some t \<Rightarrow> ret (Some (INT_node (tvalue t))) st1)
          else if ttype tok = POW then
            bindP (Some (match POW st)) (\<lambda>pow_token st1.
              case pow_token of
                None \<Rightarrow> ret None st1
              | Some _ \<Rightarrow>
            bindP (Some (match LPAREN st1)) (\<lambda>lparen st2.
              case lparen of
                None \<Rightarrow> ret None st2
              | Some _ \<Rightarrow>
            bindP (parse_expr n st2) (\<lambda>arg1 st3.
              case arg1 of
                None \<Rightarrow> ret None st3
              | Some a1 \<Rightarrow>
            bindP (Some (match COMMA st3)) (\<lambda>comma st4.
              case comma of
                None \<Rightarrow> error_here ExpectedComma st4
              | Some _ \<Rightarrow>
            bindP (parse_expr n st4) (\<lambda>arg2 st5.
              case arg2 of
                None \<Rightarrow> ret None st5
              | Some a2 \<Rightarrow>
            bindP (Some (match RPAREN st5)) (\<lambda>rparen st6.
              case rparen of
                None \<Rightarrow> error_here ExpectedRParen st6
              | Some _ \<Rightarrow> ret (Some (Pow_node a1 a2)) st6))))))
          else error_here (ExpectedIntOrPow (ttype tok)) st)"

text \<open>\<open>Parser(tokens).parse()\<close>: the constructor, \<open>parse_expr\<close>, then the check for EOF.\<close>

definition parse :: "nat \<Rightarrow> token list \<Rightarrow> ast option presult option" where
  "parse n ts =
     (case Parser_init ts of
        Inl e \<Rightarrow> Some (Inl e)
      | Inr st \<Rightarrow>
          bindP (parse_expr n st) (\<lambda>a st1.
            case current_token st1 of
              None \<Rightarrow> Some (Inl AttributeError)
            | Some tok \<Rightarrow>
                if ttype tok \<noteq> EOF
                then ret a (add_error (TrailingToken (ttype tok)) (tline tok) (tcol tok) st1)
                else ret a st1))"

subsection \<open>Evaluator\<close>

datatype sem_error =
    EmptyAST
  | NegativeSum int int
  | NegativeProduct int int
  | NegativePowArgs payload payload
  | ExponentTooLarge int
  | NegativePowResult int int

text \<open>
  The value of a subtree is a \<open>payload\<close>; \<open>NoValue\<close> is Python's None, the absent value.
  The functions below are the bodies of the three operator branches of \<open>evaluate\<close> once
  both operands are evaluated. Python's integer \<open>+\<close>, \<open>*\<close> and \<open>pow\<close> are exact and never
  raise OverflowError, so the \<open>except OverflowError\<close> handlers have no branch here. An
  operand that is a string makes \<open>+\<close>, \<open>*\<close> or the comparison with 0 raise TypeError,
  which \<open>evaluate\<close> does not catch.

  Every diagnostic is an f-string that formats operand values, evaluated before
  \<open>self.errors.append\<close> is called and outside the \<open>try\<close> blocks (which catch OverflowError
  only): when one of the values is an integer of more than \<open>max_str_digits\<close> digits the
  f-string raises ValueError, nothing is appended, and \<open>evaluate\<close> does not catch it.
\<close>

definition formats :: "payload \<Rightarrow> bool" where
  "formats v = (case v of IntValue n \<Rightarrow> \<bar>n\<bar> < 10 ^ max_str_digits | _ \<Rightarrow> True)"

text \<open>
  \<open>self.errors.append(f"...")\<close> followed by \<open>return None\<close>; the second argument lists the
  values that the f-string formats.
\<close>

definition report :: "sem_error \<Rightarrow> payload list \<Rightarrow> sem_error list \<Rightarrow> exn + payload \<times> sem_error list" where
  "report e shown errs =
     (if list_all formats shown then Inr (NoValue, errs @ [e]) else Inl ValueError)"

definition eval_add :: "payload \<Rightarrow> payload \<Rightarrow> sem_error list \<Rightarrow> exn + payload \<times> sem_error list" where
  "eval_add left_val right_val errs =
     (if left_val = NoValue \<or> right_val = NoValue then Inr (NoValue, errs)
      else case (left_val, right_val) of
        (IntValue a, IntValue b) \<Rightarrow>
          (let result = a + b
           in if result < 0 then report (NegativeSum a b) [left_val, right_val] errs
              else Inr (IntValue result, errs))
      | _ \<Rightarrow> Inl TypeError)"

definition eval_mul :: "payload \<Rightarrow> payload \<Rightarrow> sem_error list \<Rightarrow> exn + payload \<times> sem_error list" where
  "eval_mul left_val right_val errs =
     (if left_val = NoValue \<or> right_val = NoValue then Inr (NoValue, errs)
      else case (left_val, right_val) of
        (IntValue a, IntValue b) \<Rightarrow>
          (let result = a * b
           in if result < 0 then report (NegativeProduct a b) [left_val, right_val] errs
              else Inr (IntValue result, errs))
      | _ \<Rightarrow> Inl TypeError)"

definition eval_pow :: "payload \<Rightarrow> payload \<Rightarrow> sem_error list \<Rightarrow> exn + payload \<times> sem_error list" where
  "eval_pow base exponent errs =
     (if base = NoValue \<or> exponent = NoValue then Inr (NoValue, errs)
      else case base of
        IntValue b \<Rightarrow>
          if b < 0 then report (NegativePowArgs base exponent) [base, exponent] errs
          else (case exponent of
            IntValue e \<Rightarrow>
              if e < 0 then report (NegativePowArgs base exponent) [base, exponent] errs
              else if e > 1000 then report (ExponentTooLarge e) [exponent] errs
              else (let result = b ^ nat e
                    in if result < 0 then report (NegativePowResult b e) [base, exponent] errs
                       else Inr (IntValue result, errs))
          | _ \<Rightarrow> Inl TypeError)
      | _ \<Rightarrow> Inl TypeError)"

text \<open>
  \<open>evaluate(node)\<close> for a node that is not None. The second argument is \<open>self.errors\<close>
  before the call, the result carries it after the call.
\<close>

fun evaluate :: "ast \<Rightarrow> sem_error list \<Rightarrow> exn + payload \<times> sem_error list" where
  "evaluate (INT_node v) errs = Inr (v, errs)"
| "evaluate (Add_node l r) errs =
     (case evaluate l errs of
        Inl e \<Rightarrow> Inl e
      | Inr (left_val, errs1) \<Rightarrow>
          (case evaluate r errs1 of
             Inl e \<Rightarrow> Inl e
           | Inr (right_val, errs2) \<Rightarrow> eval_add left_val right_val errs2))"
| "evaluate (Mul_node l r) errs =
     (case evaluate l errs of
        Inl e \<Rightarrow> Inl e
      | Inr (left_val, errs1) \<Rightarrow>
          (case evaluate r errs1 of
             Inl e \<Rightarrow> Inl e
           | Inr (right_val, errs2) \<Rightarrow> eval_mul left_val right_val errs2))"
| "evaluate (Pow_node l r) errs =
     (case evaluate l errs of
        Inl e \<Rightarrow> Inl e
      | Inr (base, errs1) \<Rightarrow>
          (case evaluate r errs1 of
             Inl e \<Rightarrow> Inl e
           | Inr (exponent, errs2) \<Rightarrow> eval_pow base exponent errs2))"

text \<open>\<open>SemanticAnalyzer(ast).evaluate()\<close>: the tree may be None, the error list starts empty.\<close>

definition evaluate_top :: "ast option \<Rightarrow> exn + payload \<times> sem_error list" where
  "evaluate_top a =
     (case a of
        None \<Rightarrow> Inr (NoValue, [EmptyAST])
      | Some node \<Rightarrow> evaluate node [])"

subsection \<open>The three stages in sequence\<close>

text \<open>
  What \<open>main\<close> and \<open>run_tests\<close> do with a text: scan it, parse the tokens, and evaluate
  the tree when the parser has recorded no error. The parser gets more fuel than there
  are tokens.
\<close>

record outcome =
  scanner_errors :: "scan_error list"
  parser_errors :: "syntax_error list"
  result :: payload
  semantic_errors :: "sem_error list"

definition translate :: "string \<Rightarrow> (exn + outcome) option" where
  "translate source =
     (let ts = scan source
      in case parse (Suc (length ts)) ts of
           None \<Rightarrow> None
         | Some (Inl e) \<Rightarrow> Some (Inl e)
         | Some (Inr (a, p)) \<Rightarrow>
             if errors p \<noteq> []
             then Some (Inr \<lparr>scanner_errors = scan_errors source, parser_errors = errors p,
                             result = NoValue, semantic_errors = []\<rparr>)
             else (case evaluate_top a of
                     Inl e \<Rightarrow> Some (Inl e)
                   | Inr (v, errs) \<Rightarrow>
                       Some (Inr \<lparr>scanner_errors = scan_errors source, parser_errors = [],
                                   result = v, semantic_errors = errs\<rparr>)))"

text \<open>The outcome of a run in which no stage has recorded a diagnostic.\<close>

definition clean :: "payload \<Rightarrow> (exn + outcome) option" where
  "clean v = Some (Inr \<lparr>scanner_errors = [], parser_errors = [], result = v, semantic_errors = []\<rparr>)"

subsection \<open>Predicates used in the statements about the scanner\<close>

text \<open>Source order of two tokens: by line, then by column.\<close>

definition pos_le :: "token \<Rightarrow> token \<Rightarrow> bool" where
  "pos_le a b = (tline a < tline b \<or> (tline a = tline b \<and> tcol a \<le> tcol b))"

text \<open>A token lies at or before the position (l, c).\<close>

definition before :: "nat \<Rightarrow> nat \<Rightarrow> token \<Rightarrow> bool" where
  "before l c t = (tline t < l \<or> (tline t = l \<and> tcol t \<le> c))"

definition has_type :: "token_type \<Rightarrow> token \<Rightarrow> bool" where
  "has_type ty t = (ttype t = ty)"

text \<open>The loop invariants: order of the tokens, no EOF yet, one ERROR token per diagnostic.\<close>

definition ordered_inv :: "scanner \<Rightarrow> bool" where
  "ordered_inv st =
     (sorted_wrt pos_le (sc_tokens st) \<and> list_all (before (sc_line st) (sc_col st)) (sc_tokens st))"

definition no_eof_inv :: "scanner \<Rightarrow> bool" where
  "no_eof_inv st = (filter (has_type EOF) (sc_tokens st) = [])"

definition error_count_inv :: "scanner \<Rightarrow> bool" where
  "error_count_inv st = (length (filter (has_type ERROR) (sc_tokens st)) = length (sc_errors st))"





definition extends :: "scanner \<Rightarrow> scanner \<Rightarrow> scanner" where
  "extends st a = a\<lparr>sc_tokens := sc_tokens st @ sc_tokens a, sc_errors := sc_errors st @ sc_errors a\<rparr>"

subsection \<open>Predicates used in the statements about the parser\<close>

text \<open>The tokens not yet consumed.\<close>

definition remaining :: "parser \<Rightarrow> nat" where
  "remaining st = length (tokens st) - pos st"

text \<open>
  What \<open>Parser(tokens).parse()\<close> returns, together with \<open>parser.errors\<close> as the caller
  reads it afterwards.
\<close>

definition parse_report :: "nat \<Rightarrow> token list \<Rightarrow> (exn + ast option \<times> syntax_error list) option" where
  "parse_report n ts =
     (case parse n ts of
        None \<Rightarrow> None
      | Some (Inl e) \<Rightarrow> Some (Inl e)
      | Some (Inr (a, st)) \<Rightarrow> Some (Inr (a, errors st)))"

text \<open>A diagnostic placed at a token.\<close>

definition diag_at :: "token \<Rightarrow> syntax_message \<Rightarrow> syntax_error" where
  "diag_at tok m = SyntaxError (tline tok) (tcol tok) m"

text \<open>
  The diagnostics that a failing \<open>parse_expr\<close> leaves at the token where it stops: one
  for the unmet expectation, and after a missing comma or closing parenthesis the second
  one that \<open>parse_atom\<close> adds to the one of \<open>_match\<close>.
\<close>

definition failure_diags :: "token \<Rightarrow> syntax_error list \<Rightarrow> bool" where
  "failure_diags tok ds =
     (ds = [diag_at tok (ExpectedIntOrPow (ttype tok))]
      \<or> ds = [diag_at tok (Expected LPAREN (ttype tok))]
      \<or> ds = [diag_at tok (Expected COMMA (ttype tok)), diag_at tok ExpectedComma]
      \<or> ds = [diag_at tok (Expected RPAREN (ttype tok)), diag_at tok ExpectedRParen])"

text \<open>The diagnostic that \<open>parse\<close> adds when the token it stops at is not EOF.\<close>

definition trailing_diags :: "token \<Rightarrow> syntax_error list" where
  "trailing_diags tok = (if ttype tok \<noteq> EOF then [diag_at tok (TrailingToken (ttype tok))] else [])"

text \<open>
  Success leaves the diagnostics alone; failure appends the diagnostics of one failure,
  placed at the token that is current afterwards.
\<close>

definition err_rel :: "parser \<Rightarrow> ast option \<Rightarrow> parser \<Rightarrow> bool" where
  "err_rel st a st' =
     (case a of
        Some _ \<Rightarrow> errors st' = errors st
      | None \<Rightarrow> (\<exists>tok ds. current_token st' = Some tok \<and> errors st' = errors st @ ds
                    \<and> failure_diags tok ds))"

text \<open>
  The runs of the parser as a relation: \<open>p_atom st a st'\<close> says that \<open>parse_atom\<close>, started
  in state st, returns a and leaves state st'; likewise for the other nonterminals and
  for the two while loops (entered after an operator token has been consumed, with the
  tree built so far). One rule for each path through the code. The relation is a device
  of the proofs: it is shown below that the functions follow it.
\<close>

inductive p_atom :: "parser \<Rightarrow> ast option \<Rightarrow> parser \<Rightarrow> bool"
  and p_prod :: "parser \<Rightarrow> ast option \<Rightarrow> parser \<Rightarrow> bool"
  and p_prod_loop :: "ast \<Rightarrow> parser \<Rightarrow> ast option \<Rightarrow> parser \<Rightarrow> bool"
  and p_sum :: "parser \<Rightarrow> ast option \<Rightarrow> parser \<Rightarrow> bool"
  and p_sum_loop :: "ast \<Rightarrow> parser \<Rightarrow> ast option \<Rightarrow> parser \<Rightarrow> bool"
where
  atom_int:
    "match INT_T st = Inr (Some t, st1) \<Longrightarrow> p_atom st (Some (INT_node (tvalue t))) st1"
| atom_other:
    "current_token st = Some tok \<Longrightarrow> ttype tok \<noteq> INT_T \<Longrightarrow> ttype tok \<noteq> POW \<Longrightarrow>
     p_atom st None (add_error (ExpectedIntOrPow (ttype tok)) (tline tok) (tcol tok) st)"
| atom_no_lparen:
    "match POW st = Inr (Some p, st1) \<Longrightarrow> match LPAREN st1 = Inr (None, st2) \<Longrightarrow>
     p_atom st None st2"
| atom_no_arg1:
    "match POW st = Inr (Some p, st1) \<Longrightarrow> match LPAREN st1 = Inr (Some l, st2) \<Longrightarrow>
     p_sum st2 None st3 \<Longrightarrow> p_atom st None st3"
| atom_no_comma:
    "match POW st = Inr (Some p, st1) \<Longrightarrow> match LPAREN st1 = Inr (Some l, st2) \<Longrightarrow>
     p_sum st2 (Some a1) st3 \<Longrightarrow> match COMMA st3 = Inr (None, st4) \<Longrightarrow>
     current_token st4 = Some tok \<Longrightarrow>
     p_atom st None (add_error ExpectedComma (tline tok) (tcol tok) st4)"
| atom_no_arg2:
    "match POW st = Inr (Some p, st1) \<Longrightarrow> match LPAREN st1 = Inr (Some l, st2) \<Longrightarrow>
     p_sum st2 (Some a1) st3 \<Longrightarrow> match COMMA st3 = Inr (Some c, st4) \<Longrightarrow>
     p_sum st4 None st5 \<Longrightarrow> p_atom st None st5"
| atom_no_rparen:
    "match POW st = Inr (Some p, st1) \<Longrightarrow> match LPAREN st1 = Inr (Some l, st2) \<Longrightarrow>
     p_sum st2 (Some a1) st3 \<Longrightarrow> match COMMA st3 = Inr (Some c, st4) \<Longrightarrow>
     p_sum st4 (Some a2) st5 \<Longrightarrow> match RPAREN st5 = Inr (None, st6) \<Longrightarrow>
     current_token st6 = Some tok \<Longrightarrow>
     p_atom st None (add_error ExpectedRParen (tline tok) (tcol tok) st6)"
| atom_pow:
    "match POW st = Inr (Some p, st1) \<Longrightarrow> match LPAREN st1 = Inr (Some l, st2) \<Longrightarrow>
     p_sum st2 (Some a1) st3 \<Longrightarrow> match COMMA st3 = Inr (Some c, st4) \<Longrightarrow>
     p_sum st4 (Some a2) st5 \<Longrightarrow> match RPAREN st5 = Inr (Some r, st6) \<Longrightarrow>
     p_atom st (Some (Pow_node a1 a2)) st6"
| prod_fail:
    "p_atom st None st1 \<Longrightarrow> p_prod st None st1"
| prod_single:
    "p_atom st (Some nd) st1 \<Longrightarrow> parse_prod_tail st1 = Inr (False, st2) \<Longrightarrow>
     p_prod st (Some nd) st2"
| prod_chain:
    "p_atom st (Some nd) st1 \<Longrightarrow> parse_prod_tail st1 = Inr (True, st2) \<Longrightarrow>
     p_prod_loop nd st2 a st3 \<Longrightarrow> p_prod st a st3"
| prod_loop_fail:
    "p_atom st None st1 \<Longrightarrow> p_prod_loop node st None st1"
| prod_loop_last:
    "p_atom st (Some r) st1 \<Longrightarrow> parse_prod_tail st1 = Inr (False, st2) \<Longrightarrow>
     p_prod_loop node st (Some (Mul_node node r)) st2"
| prod_loop_more:
    "p_atom st (Some r) st1 \<Longrightarrow> parse_prod_tail st1 = Inr (True, st2) \<Longrightarrow>
     p_prod_loop (Mul_node node r) st2 a st3 \<Longrightarrow> p_prod_loop node st a st3"
| sum_fail:
    "p_prod st None st1 \<Longrightarrow> p_sum st None st1"
| sum_single:
    "p_prod st (Some nd) st1 \<Longrightarrow> parse_sum_tail st1 = Inr (False, st2) \<Longrightarrow>
     p_sum st (Some nd) st2"
| sum_chain:
    "p_prod st (Some nd) st1 \<Longrightarrow> parse_sum_tail st1 = Inr (True, st2) \<Longrightarrow>
     p_sum_loop nd st2 a st3 \<Longrightarrow> p_sum st a st3"
| sum_loop_fail:
    "p_prod st None st1 \<Longrightarrow> p_sum_loop node st None st1"
| sum_loop_last:
    "p_prod st (Some r) st1 \<Longrightarrow> parse_sum_tail st1 = Inr (False, st2) \<Longrightarrow>
     p_sum_loop node st (Some (Add_node node r)) st2"
| sum_loop_more:
    "p_prod st (Some r) st1 \<Longrightarrow> parse_sum_tail st1 = Inr (True, st2) \<Longrightarrow>
     p_sum_loop (Add_node node r) st2 a st3 \<Longrightarrow> p_sum_loop node st a st3"

text \<open>
  Left grouping of a tree: the right operand of an Add node is not an Add node, the right
  operand of a Mul node is not a Mul node, and no operand of a Mul node is an Add node
  (the arguments of pow are trees of their own).
\<close>

fun is_add :: "ast \<Rightarrow> bool" where
  "is_add (Add_node l r) = True"
| "is_add (INT_node v) = False"
| "is_add (Mul_node l r) = False"
| "is_add (Pow_node l r) = False"

fun is_mul :: "ast \<Rightarrow> bool" where
  "is_mul (Mul_node l r) = True"
| "is_mul (INT_node v) = False"
| "is_mul (Add_node l r) = False"
| "is_mul (Pow_node l r) = False"

fun left_grouped :: "ast \<Rightarrow> bool" where
  "left_grouped (INT_node v) = True"
| "left_grouped (Add_node l r) = (left_grouped l \<and> left_grouped r \<and> \<not> is_add r)"
| "left_grouped (Mul_node l r) =
     (left_grouped l \<and> left_grouped r \<and> \<not> is_mul r \<and> \<not> is_add l \<and> \<not> is_add r)"
| "left_grouped (Pow_node l r) = (left_grouped l \<and> left_grouped r)"

text \<open>
  Values that are non-negative integers; values that are non-negative integers or
  absent; trees whose literals are non-negative integers; the subtrees of a tree.
\<close>

definition nat_literal :: "payload \<Rightarrow> bool" where
  "nat_literal v = (case v of IntValue n \<Rightarrow> 0 \<le> n | NoValue \<Rightarrow> False | StrValue s \<Rightarrow> False)"

definition nonneg_value :: "payload \<Rightarrow> bool" where
  "nonneg_value v = (case v of IntValue n \<Rightarrow> 0 \<le> n | NoValue \<Rightarrow> True | StrValue s \<Rightarrow> False)"

fun literals_ok :: "ast \<Rightarrow> bool" where
  "literals_ok (INT_node v) = nat_literal v"
| "literals_ok (Add_node l r) = (literals_ok l \<and> literals_ok r)"
| "literals_ok (Mul_node l r) = (literals_ok l \<and> literals_ok r)"
| "literals_ok (Pow_node l r) = (literals_ok l \<and> literals_ok r)"

fun subtrees :: "ast \<Rightarrow> ast list" where
  "subtrees (INT_node v) = [INT_node v]"
| "subtrees (Add_node l r) = Add_node l r # subtrees l @ subtrees r"
| "subtrees (Mul_node l r) = Mul_node l r # subtrees l @ subtrees r"
| "subtrees (Pow_node l r) = Pow_node l r # subtrees l @ subtrees r"

text \<open>An INT token carries a non-negative integer; a parser state whose tokens all do.\<close>

definition good_token :: "token \<Rightarrow> bool" where
  "good_token t = (if ttype t = INT_T then nat_literal (tvalue t) else True)"

definition good_state :: "parser \<Rightarrow> bool" where
  "good_state st =
     (list_all good_token (tokens st)
      \<and> (case current_token st of None \<Rightarrow> True | Some tok \<Rightarrow> good_token tok))"

text \<open>The diagnostics of the negative-value branches of the scanner and of the evaluator.\<close>

fun negative_number :: "scan_error \<Rightarrow> bool" where
  "negative_number (ScanError l c (NegativeNumber v)) = True"
| "negative_number (ScanError l c (InvalidNumber s)) = False"
| "negative_number (ScanError l c (UnknownIdentifier ch)) = False"
| "negative_number (ScanError l c (UnknownChar ch)) = False"

fun negative_diag :: "sem_error \<Rightarrow> bool" where
  "negative_diag (NegativeSum a b) = True"
| "negative_diag (NegativeProduct a b) = True"
| "negative_diag (NegativePowArgs a b) = True"
| "negative_diag (NegativePowResult a b) = True"
| "negative_diag EmptyAST = False"
| "negative_diag (ExponentTooLarge e) = False"

text \<open>A computation returns normally: it neither runs out of fuel nor raises.\<close>

definition ok :: "'a presult option \<Rightarrow> bool" where
  "ok m = (\<exists>r. m = Some (Inr r))"

text \<open>
  What every step of the parser keeps: the token list, a current token, and a position
  that does not move back.
\<close>

definition keeps :: "parser \<Rightarrow> parser \<Rightarrow> bool" where
  "keeps st st' =
     (tokens st' = tokens st \<and> current_token st' \<noteq> None \<and> remaining st' \<le> remaining st)"

text \<open>
  A successful nonterminal has consumed a token, unless the tokens were used up and the
  current token is a stuck INT.
\<close>

definition progress :: "parser \<Rightarrow> ast option \<Rightarrow> parser \<Rightarrow> bool" where
  "progress st a st' =
     (keeps st st' \<and>
      (case a of
         None \<Rightarrow> True
       | Some _ \<Rightarrow> remaining st' < remaining st \<or> map_option ttype (current_token st') = Some INT_T))"



section \<open>Properties of the scanner\<close>

lemma scan_loop_preserves:
  assumes blank: "\<And>st. P st \<Longrightarrow> P (st\<lparr>sc_col := sc_col st + 1\<rparr>)"
    and newline: "\<And>st. P st \<Longrightarrow> P (st\<lparr>sc_line := sc_line st + 1, sc_col := 1\<rparr>)"
    and number: "\<And>s st. P st \<Longrightarrow> P (scan_number s st)"
    and pow: "\<And>st. P st \<Longrightarrow> P (scan_pow st)"
    and bad: "\<And>m c st. P st \<Longrightarrow> P (scan_bad m c st)"
    and single: "\<And>t st. t \<in> {LPAREN, RPAREN, COMMA, PLUS, MULT} \<Longrightarrow> P st \<Longrightarrow> P (scan_single t st)"
  shows "P st \<Longrightarrow> P (scan_loop s st)"
proof (induction s st rule: scan_loop.induct)
  case (1 st)
  then show ?case by simp
next
  case (2 ch rest st)
  show ?case
    using "2.prems" "2.IH" blank newline number pow bad single
    by (simp del: takeWhile.simps dropWhile.simps)
qed

lemma before_trans: "before l c t \<Longrightarrow> l < l' \<or> (l = l' \<and> c \<le> c') \<Longrightarrow> before l' c' t"
  by (auto simp: before_def)

lemma list_all_before_mono:
  "list_all (before l c) ts \<Longrightarrow> l < l' \<or> (l = l' \<and> c \<le> c') \<Longrightarrow> list_all (before l' c') ts"
  by (induction ts) (auto intro: before_trans)

lemma ordered_intro:
  assumes "ordered_inv st"
    and "sc_tokens st' = sc_tokens st @ [Token ty v (sc_line st) (sc_col st)]"
    and "sc_line st' = sc_line st" and "sc_col st \<le> sc_col st'"
  shows "ordered_inv st'"
proof -
  let ?t = "Token ty v (sc_line st) (sc_col st)"
  have t: "tline ?t = sc_line st" "tcol ?t = sc_col st" by (simp_all add: Token_def)
  have "\<forall>x\<in>set (sc_tokens st). pos_le x ?t"
    using assms t by (auto simp: ordered_inv_def list_all_iff before_def pos_le_def)
  moreover have "before (sc_line st) (sc_col st') ?t" using assms t by (simp add: before_def)
  moreover have "list_all (before (sc_line st) (sc_col st')) (sc_tokens st)"
    using assms list_all_before_mono [of "sc_line st" "sc_col st" "sc_tokens st" "sc_line st" "sc_col st'"]
    by (simp add: ordered_inv_def)
  ultimately show ?thesis using assms by (simp add: ordered_inv_def sorted_wrt_append)
qed

lemma ordered_scan_number: "ordered_inv st \<Longrightarrow> ordered_inv (scan_number s st)"
proof -
  assume a: "ordered_inv st"
  show ?thesis
  proof (cases "py_int s")
    case None
    show ?thesis
      by (rule ordered_intro [OF a, where ty = ERROR and v = "StrValue s"])
         (simp_all add: None scan_number_def Let_def add_token_def scan_add_error_def)
  next
    case (Some n)
    show ?thesis
    proof (cases "n < 0")
      case True
      show ?thesis
        by (rule ordered_intro [OF a, where ty = ERROR and v = "IntValue n"])
           (simp_all add: Some True scan_number_def Let_def add_token_def scan_add_error_def)
    next
      case False
      show ?thesis
        by (rule ordered_intro [OF a, where ty = INT_T and v = "IntValue n"])
           (simp_all add: Some False scan_number_def Let_def add_token_def scan_add_error_def)
    qed
  qed
qed

lemma ordered_scan_loop: "ordered_inv st \<Longrightarrow> ordered_inv (scan_loop s st)"
proof (rule scan_loop_preserves [where P = ordered_inv])
  fix st assume "ordered_inv st"
  then show "ordered_inv (st\<lparr>sc_col := sc_col st + 1\<rparr>)"
    using list_all_before_mono [of "sc_line st" "sc_col st" "sc_tokens st" "sc_line st" "sc_col st + 1"]
    by (simp add: ordered_inv_def)
next
  fix st assume "ordered_inv st"
  then show "ordered_inv (st\<lparr>sc_line := sc_line st + 1, sc_col := 1\<rparr>)"
    using list_all_before_mono [of "sc_line st" "sc_col st" "sc_tokens st" "sc_line st + 1" 1]
    by (simp add: ordered_inv_def)
next
  fix s st assume "ordered_inv st"
  then show "ordered_inv (scan_number s st)" by (rule ordered_scan_number)
next
  fix st assume "ordered_inv st"
  then show "ordered_inv (scan_pow st)"
    by (rule ordered_intro [where ty = POW and v = NoValue]) (simp_all add: scan_pow_def add_token_def)
next
  fix m c st assume "ordered_inv st"
  then show "ordered_inv (scan_bad m c st)"
    by (rule ordered_intro [where ty = ERROR and v = "StrValue [c]"]) (simp_all add: scan_bad_def add_token_def scan_add_error_def)
next
  fix t :: token_type and st assume "ordered_inv st"
  then show "ordered_inv (scan_single t st)"
    by (rule ordered_intro [where ty = t and v = NoValue]) (simp_all add: scan_single_def add_token_def)
qed

lemma no_eof_scan_loop: "no_eof_inv st \<Longrightarrow> no_eof_inv (scan_loop s st)"
  by (rule scan_loop_preserves [where P = no_eof_inv])
     (auto simp add: no_eof_inv_def scan_number_def scan_pow_def scan_bad_def scan_single_def
        add_token_def scan_add_error_def Token_def has_type_def Let_def split: option.splits)


lemma init_invs: "ordered_inv Scanner_init" "no_eof_inv Scanner_init" "error_count_inv Scanner_init"
  by (simp_all add: ordered_inv_def no_eof_inv_def error_count_inv_def Scanner_init_def)

text \<open>
  Claim C6. For every input text, the token sequence of the scanner is not empty, its
  last token is EOF, no other token is EOF (exactly one EOF in all), and the positions
  (line, column) of the tokens never decrease along the sequence.
\<close>

theorem scan_eof_and_order:
  "scan source \<noteq> []
   \<and> ttype (last (scan source)) = EOF
   \<and> filter (has_type EOF) (butlast (scan source)) = []
   \<and> length (filter (has_type EOF) (scan source)) = 1
   \<and> sorted_wrt pos_le (scan source)"
proof -
  let ?st = "scan_loop source Scanner_init"
  let ?eof = "Token EOF NoValue (sc_line ?st) (sc_col ?st)"
  have s: "scan source = sc_tokens ?st @ [?eof]"
    by (simp add: scan_def scan_state_def add_token_def Let_def)
  have o: "ordered_inv ?st" by (rule ordered_scan_loop) (rule init_invs)
  have n: "no_eof_inv ?st" by (rule no_eof_scan_loop) (rule init_invs)
  have "\<forall>x\<in>set (sc_tokens ?st). pos_le x ?eof"
    using o by (auto simp: ordered_inv_def list_all_iff before_def pos_le_def Token_def)
  then have "sorted_wrt pos_le (scan source)"
    using o by (simp add: s sorted_wrt_append ordered_inv_def)
  moreover have "ttype ?eof = EOF" by (simp add: Token_def)
  ultimately show ?thesis
    using n by (simp add: s no_eof_inv_def has_type_def)
qed

lemma scan_loop_grows:
  "\<exists>ts es. sc_tokens (scan_loop s st) = sc_tokens st @ ts \<and> sc_errors (scan_loop s st) = sc_errors st @ es"
proof -
  let ?P = "\<lambda>st'. \<exists>ts es. sc_tokens st' = sc_tokens st @ ts \<and> sc_errors st' = sc_errors st @ es"
  have "?P (scan_loop s st)"
    by (rule scan_loop_preserves [where P = ?P])
       (auto simp add: scan_number_def scan_pow_def scan_bad_def scan_single_def
          add_token_def scan_add_error_def Let_def split: option.splits)
  then show ?thesis .
qed





text \<open>
  What the loop records does not depend on what was recorded before: scanning from st
  gives the tokens and diagnostics of st followed by those of a scan of the same text
  from an empty scanner at the position of st, and ends at the same position.
\<close>

lemma extends_simps [simp]:
  "sc_tokens (extends st a) = sc_tokens st @ sc_tokens a"
  "sc_errors (extends st a) = sc_errors st @ sc_errors a"
  "sc_line (extends st a) = sc_line a"
  "sc_col (extends st a) = sc_col a"
  by (simp_all add: extends_def)






text \<open>A run of more than \<open>max_str_digits\<close> decimal digits is rejected like any other bad run.\<close>

lemma py_int_long_run: "max_str_digits < length s \<Longrightarrow> py_int s = None"
  by (simp add: py_int_def)



section \<open>Properties of the evaluator\<close>

text \<open>An integer below a power of ten with at most \<open>max_str_digits\<close> digits is formatted.\<close>

lemma formats_below:
  assumes "\<bar>n\<bar> < 10 ^ k" and "k \<le> max_str_digits"
  shows "formats (IntValue n)"
proof -
  have "(10::int) ^ k \<le> 10 ^ max_str_digits"
    using assms(2) by (intro power_increasing) simp_all
  with assms(1) have "\<bar>n\<bar> < 10 ^ max_str_digits" by (rule order_less_le_trans)
  then show ?thesis by (simp add: formats_def)
qed

text \<open>
  Claim C1. Each end-to-end scenario, run through scanner, parser and evaluator on the
  literal text, gives the stated value, and the diagnostics of all three stages are
  empty: 7, 4+5*6 = 34, pow(10,2) = 100, 2+3*4 = 14, 2*3+4*5 = 26, pow(2,3)*4 = 32 and
  pow(2,pow(3,4)) = 2^81.
\<close>

theorem end_to_end_scenarios:
  "translate ''7'' = clean (IntValue 7)
   \<and> translate ''4+5*6'' = clean (IntValue 34)
   \<and> translate ''pow(10,2)'' = clean (IntValue 100)
   \<and> translate ''2+3*4'' = clean (IntValue 14)
   \<and> translate ''2*3+4*5'' = clean (IntValue 26)
   \<and> translate ''pow(2,3)*4'' = clean (IntValue 32)
   \<and> translate ''pow(2,pow(3,4))'' = clean (IntValue (2 ^ 81))"
  by code_simp

text \<open>
  Claim C9. Evaluating the node Pow(IntLiteral 0, IntLiteral 0) returns 1 and records no
  diagnostic, both as a subtree and as the whole tree.
\<close>

theorem zero_pow_zero:
  "evaluate (Pow_node (INT_node (IntValue 0)) (INT_node (IntValue 0))) [] = Inr (IntValue 1, [])
   \<and> evaluate_top (Some (Pow_node (INT_node (IntValue 0)) (INT_node (IntValue 0)))) = Inr (IntValue 1, [])"
  by (simp add: eval_pow_def evaluate_top_def)

text \<open>
  The Pow node on non-negative integers: the exponent rule with the formatting of its
  diagnostic.
\<close>

lemma pow_node_int:
  assumes "evaluate b errs = Inr (IntValue bv, errs1)"
    and "evaluate e errs1 = Inr (IntValue ev, errs2)"
    and "0 \<le> bv" and "0 \<le> ev"
  shows "evaluate (Pow_node b e) errs =
           (if ev > 1000
            then (if \<bar>ev\<bar> < 10 ^ max_str_digits then Inr (NoValue, errs2 @ [ExponentTooLarge ev])
                  else Inl ValueError)
            else Inr (IntValue (bv ^ nat ev), errs2))"
  using assms by (simp add: eval_pow_def report_def formats_def Let_def)

lemma pow_boundary:
  "evaluate (Pow_node (INT_node (IntValue 2)) (INT_node (IntValue 1000))) [] = Inr (IntValue (2 ^ 1000), [])"
  "evaluate (Pow_node (INT_node (IntValue 2)) (INT_node (IntValue 1001))) [] = Inr (NoValue, [ExponentTooLarge 1001])"
proof -
  have i: "\<And>n. evaluate (INT_node (IntValue n)) [] = Inr (IntValue n, [])" by simp
  show "evaluate (Pow_node (INT_node (IntValue 2)) (INT_node (IntValue 1000))) [] = Inr (IntValue (2 ^ 1000), [])"
    using pow_node_int [OF i i, of 2 1000] by (simp del: power_numeral)
  have "formats (IntValue 1001)"
    by (rule formats_below [where k = 4]) (simp_all add: max_str_digits_def)
  then have "\<bar>1001::int\<bar> < 10 ^ max_str_digits" by (simp add: formats_def)
  then show "evaluate (Pow_node (INT_node (IntValue 2)) (INT_node (IntValue 1001))) [] = Inr (NoValue, [ExponentTooLarge 1001])"
    using pow_node_int [OF i i, of 2 1001] by (simp del: power_numeral)
qed

text \<open>A text whose tree evaluates to an exception makes the whole run end with it.\<close>

lemma translate_parsed:
  assumes "(case parse (Suc (length (scan s))) (scan s) of
              Some (Inr (a, p)) \<Rightarrow> a = Some t \<and> errors p = []
            | _ \<Rightarrow> False)"
    and "evaluate t [] = Inl e"
  shows "translate s = Some (Inl e)"
  using assms
  by (auto simp: translate_def Let_def evaluate_top_def split: option.splits sum.splits prod.splits)

lemma huge_exponent_parse:
  "(case parse (Suc (length (scan ''pow(2,pow(pow(10,1000),5))''))) (scan ''pow(2,pow(pow(10,1000),5))'') of
      Some (Inr (a, p)) \<Rightarrow>
        a = Some (Pow_node (INT_node (IntValue 2))
                   (Pow_node (Pow_node (INT_node (IntValue 10)) (INT_node (IntValue 1000)))
                      (INT_node (IntValue 5))))
        \<and> errors p = []
    | _ \<Rightarrow> False)"
  by code_simp

lemma huge_exponent_eval:
  "evaluate (Pow_node (INT_node (IntValue 2))
                   (Pow_node (Pow_node (INT_node (IntValue 10)) (INT_node (IntValue 1000)))
                      (INT_node (IntValue 5)))) [] = Inl ValueError"
proof -
  have i: "\<And>n. evaluate (INT_node (IntValue n)) [] = Inr (IntValue n, [])" by simp
  have a: "evaluate (Pow_node (INT_node (IntValue 10)) (INT_node (IntValue 1000))) []
             = Inr (IntValue (10 ^ 1000), [])"
    using pow_node_int [OF i i, of 10 1000] by (simp del: power_numeral)
  have b: "evaluate (Pow_node (Pow_node (INT_node (IntValue 10)) (INT_node (IntValue 1000)))
                      (INT_node (IntValue 5))) [] = Inr (IntValue ((10 ^ 1000) ^ 5), [])"
    using pow_node_int [OF a i, of 5] by (simp del: power_numeral)
  have "(10::int) ^ max_str_digits \<le> 10 ^ (1000 * 5)"
    by (intro power_increasing) (simp_all add: max_str_digits_def)
  then have big: "(10::int) ^ max_str_digits \<le> (10 ^ 1000) ^ 5"
    by (simp only: power_mult)
  have "(1000::int) = 10 ^ 3" by simp
  also have "\<dots> < 10 ^ max_str_digits"
    by (intro power_strict_increasing) (simp_all add: max_str_digits_def)
  finally have "(1000::int) < (10 ^ 1000) ^ 5" using big by (rule order_less_le_trans)
  moreover have "(0::int) \<le> (10 ^ 1000) ^ 5" by (intro zero_le_power) simp
  ultimately show ?thesis
    using pow_node_int [OF i b, of 2] big by (simp del: power_numeral)
qed

text \<open>
  Claim C2. The evaluator follows the claim while the exponent has at most 4300 decimal
  digits (lemmas \<open>pow_node_int\<close> and \<open>pow_boundary\<close>: 1000 succeeds, 1001 is refused with one
  diagnostic). Above that the code does not do what the claim says. The text
  pow(2,pow(pow(10,1000),5)) scans and parses without a diagnostic; its exponent is
  10^5000, larger than 1000, and the f-string of the diagnostic at line 430 raises
  ValueError while formatting it: no diagnostic is recorded, no absent value is
  returned, and the exception leaves \<open>evaluate\<close>.
\<close>

theorem huge_exponent_raises:
  "translate ''pow(2,pow(pow(10,1000),5))'' = Some (Inl ValueError)"
  using huge_exponent_parse huge_exponent_eval by (rule translate_parsed)







section \<open>Properties of the parser\<close>

subsection \<open>The primitive steps\<close>

lemma advance_cases:
  obtains (moved) "pos st < length (tokens st)"
      "advance st = Inr (st\<lparr>current_token := Some (tokens st ! pos st), pos := pos st + 1\<rparr>)"
    | (stuck) "\<not> pos st < length (tokens st)" "advance st = Inr st"
  by (cases "pos st < length (tokens st)") (simp_all add: advance_def index_def)

lemma match_SomeD:
  assumes "match ty st = Inr (Some t, st1)"
  shows "current_token st = Some t \<and> ttype t = ty \<and> errors st1 = errors st
    \<and> tokens st1 = tokens st \<and> current_token st1 \<noteq> None
    \<and> remaining st1 \<le> remaining st
    \<and> (remaining st1 < remaining st \<or> st1 = st)"
  using assms
  by (cases "current_token st"; cases st rule: advance_cases)
     (auto simp: match_def remaining_def split: if_splits)

lemma match_SomeE:
  assumes "match ty st = Inr (Some t, st1)"
  obtains "current_token st = Some t" and "ttype t = ty" and "errors st1 = errors st"
    and "tokens st1 = tokens st" and "current_token st1 \<noteq> None"
    and "remaining st1 < remaining st \<or> st1 = st"
  using match_SomeD [OF assms] by blast

lemma match_NoneE:
  assumes "match ty st = Inr (None, st1)"
  obtains tok where "current_token st = Some tok" and "ttype tok \<noteq> ty"
    and "st1 = add_error (Expected ty (ttype tok)) (tline tok) (tcol tok) st"
  using assms
  by (cases "current_token st"; cases st rule: advance_cases)
     (auto simp: match_def split: if_splits)

lemma parse_tail_True_match:
  assumes "parse_tail op st = Inr (True, st1)"
  shows "\<exists>t. match op st = Inr (Some t, st1)"
  using assms
  by (cases "current_token st")
     (auto simp: parse_tail_def split: if_splits sum.splits option.splits prod.splits)

lemma parse_tail_TrueE:
  assumes "parse_tail op st = Inr (True, st1)"
  obtains tok where "current_token st = Some tok" and "ttype tok = op"
    and "errors st1 = errors st"
    and "tokens st1 = tokens st" and "current_token st1 \<noteq> None"
    and "remaining st1 < remaining st \<or> st1 = st"
  using parse_tail_True_match [OF assms] by (auto elim!: match_SomeE)

lemma parse_tail_FalseE:
  assumes "parse_tail op st = Inr (False, st1)"
  obtains tok where "current_token st = Some tok" and "ttype tok \<noteq> op" and "st1 = st"
  using assms
  by (cases "current_token st"; cases st rule: advance_cases)
     (auto simp: parse_tail_def match_def remaining_def split: if_splits)

lemma add_error_simps [simp]:
  "tokens (add_error m l c st) = tokens st"
  "current_token (add_error m l c st) = current_token st"
  "remaining (add_error m l c st) = remaining st"
  "errors (add_error m l c st) = errors st @ [SyntaxError l c m]"
  by (simp_all add: add_error_def remaining_def)

lemma bindP_InrE:
  assumes "bindP m f = Some (Inr r)"
  obtains a st1 where "m = Some (Inr (a, st1))" and "f a st1 = Some (Inr r)"
  using assms by (auto simp: bindP_def split: option.splits sum.splits)

lemma ret_Inr [simp]: "ret a st = Some (Inr (b, st')) \<longleftrightarrow> a = b \<and> st = st'"
  by (auto simp: ret_def)

lemma error_hereE:
  assumes "error_here m st = Some (Inr (a, st'))"
  obtains tok where "current_token st = Some tok" and "a = None"
    and "st' = add_error m (tline tok) (tcol tok) st"
  using assms by (auto simp: error_here_def ret_def split: option.splits)

subsection \<open>The functions follow the relation\<close>

lemma sound_atom:
  assumes IH: "\<And>st a st'. parse_expr n st = Some (Inr (a, st')) \<Longrightarrow> p_sum st a st'"
    and "parse_atom (Suc n) st = Some (Inr (a, st'))"
  shows "p_atom st a st'"
proof (cases "current_token st")
  case None
  then show ?thesis using assms(2) by simp
next
  case (Some tok)
  consider (int) "ttype tok = INT_T" | (pow) "ttype tok = POW"
    | (other) "ttype tok \<noteq> INT_T" "ttype tok \<noteq> POW" by blast
  then show ?thesis
  proof cases
    case int
    then show ?thesis using assms(2) Some
      by (auto elim!: bindP_InrE match_NoneE split: option.splits intro: atom_int
            simp del: parse_expr.simps)
  next
    case other
    then show ?thesis using assms(2) Some
      by (auto elim!: error_hereE intro: atom_other)
  next
    case pow
    then have "ttype tok \<noteq> INT_T" by simp
    then show ?thesis using assms(2) Some pow
      apply (simp del: parse_expr.simps)
      apply (elim bindP_InrE)
      apply (auto elim!: bindP_InrE error_hereE split: option.splits dest!: IH
          simp del: parse_expr.simps)
      subgoal by (auto elim!: match_NoneE)
      subgoal by (blast intro: atom_no_lparen)
      subgoal by (blast intro: atom_no_arg1)
      subgoal by (blast intro: atom_no_comma)
      subgoal by (blast intro: atom_no_arg2)
      subgoal by (blast intro: atom_no_rparen)
      subgoal by (blast intro: atom_pow)
      done
  qed
qed

lemma sound_prod_loop:
  assumes atom: "\<And>st a st'. parse_atom (Suc n) st = Some (Inr (a, st')) \<Longrightarrow> p_atom st a st'"
    and IH: "\<And>node st a st'. prod_loop n node st = Some (Inr (a, st')) \<Longrightarrow> p_prod_loop node st a st'"
    and "prod_loop (Suc n) node st = Some (Inr (a, st'))"
  shows "p_prod_loop node st a st'"
  using assms(3)
  apply (simp del: parse_atom.simps)
  apply (elim bindP_InrE)
  apply (auto elim!: bindP_InrE split: option.splits if_splits dest!: atom IH
      intro: prod_loop_fail prod_loop_last prod_loop_more simp del: parse_atom.simps)
  done

lemma sound_prod:
  assumes atom: "\<And>st a st'. parse_atom n st = Some (Inr (a, st')) \<Longrightarrow> p_atom st a st'"
    and loop: "\<And>node st a st'. prod_loop n node st = Some (Inr (a, st')) \<Longrightarrow> p_prod_loop node st a st'"
    and "parse_prod n st = Some (Inr (a, st'))"
  shows "p_prod st a st'"
  using assms(3)
  apply simp
  apply (elim bindP_InrE)
  apply (auto elim!: bindP_InrE split: option.splits if_splits dest!: atom loop
      intro: prod_fail prod_single prod_chain)
  done

lemma sound_sum_loop:
  assumes prod: "\<And>st a st'. parse_prod (Suc n) st = Some (Inr (a, st')) \<Longrightarrow> p_prod st a st'"
    and IH: "\<And>node st a st'. sum_loop n node st = Some (Inr (a, st')) \<Longrightarrow> p_sum_loop node st a st'"
    and "sum_loop (Suc n) node st = Some (Inr (a, st'))"
  shows "p_sum_loop node st a st'"
  using assms(3)
  apply (simp del: parse_prod.simps)
  apply (elim bindP_InrE)
  apply (auto elim!: bindP_InrE split: option.splits if_splits dest!: prod IH
      intro: sum_loop_fail sum_loop_last sum_loop_more simp del: parse_prod.simps)
  done

lemma sound_sum:
  assumes prod: "\<And>st a st'. parse_prod n st = Some (Inr (a, st')) \<Longrightarrow> p_prod st a st'"
    and loop: "\<And>node st a st'. sum_loop n node st = Some (Inr (a, st')) \<Longrightarrow> p_sum_loop node st a st'"
    and "parse_sum n st = Some (Inr (a, st'))"
  shows "p_sum st a st'"
  using assms(3)
  apply (simp del: parse_prod.simps)
  apply (elim bindP_InrE)
  apply (auto elim!: bindP_InrE split: option.splits if_splits dest!: prod loop
      intro: sum_fail sum_single sum_chain simp del: parse_prod.simps)
  done

lemma parser_sound_all:
  "(\<forall>st a st'. parse_atom n st = Some (Inr (a, st')) \<longrightarrow> p_atom st a st')
   \<and> (\<forall>node st a st'. prod_loop n node st = Some (Inr (a, st')) \<longrightarrow> p_prod_loop node st a st')
   \<and> (\<forall>st a st'. parse_prod n st = Some (Inr (a, st')) \<longrightarrow> p_prod st a st')
   \<and> (\<forall>node st a st'. sum_loop n node st = Some (Inr (a, st')) \<longrightarrow> p_sum_loop node st a st')
   \<and> (\<forall>st a st'. parse_sum n st = Some (Inr (a, st')) \<longrightarrow> p_sum st a st')"
proof (induction n)
  case 0
  have a: "\<forall>st a st'. parse_atom 0 st = Some (Inr (a, st')) \<longrightarrow> p_atom st a st'" by simp
  have l: "\<forall>node st a st'. prod_loop 0 node st = Some (Inr (a, st')) \<longrightarrow> p_prod_loop node st a st'"
    by simp
  have p: "\<forall>st a st'. parse_prod 0 st = Some (Inr (a, st')) \<longrightarrow> p_prod st a st'"
    by (simp add: bindP_def)
  have sl: "\<forall>node st a st'. sum_loop 0 node st = Some (Inr (a, st')) \<longrightarrow> p_sum_loop node st a st'"
    by simp
  have s: "\<forall>st a st'. parse_sum 0 st = Some (Inr (a, st')) \<longrightarrow> p_sum st a st'"
    by (simp add: bindP_def)
  from a l p sl s show ?case by (intro conjI)
next
  case (Suc n)
  then have e: "\<And>st a st'. parse_expr n st = Some (Inr (a, st')) \<Longrightarrow> p_sum st a st'"
    and pl: "\<And>node st a st'. prod_loop n node st = Some (Inr (a, st')) \<Longrightarrow> p_prod_loop node st a st'"
    and sl: "\<And>node st a st'. sum_loop n node st = Some (Inr (a, st')) \<Longrightarrow> p_sum_loop node st a st'"
    by (simp_all del: parse_sum.simps parse_prod.simps add: parse_expr.simps)
  have a: "\<And>st a st'. parse_atom (Suc n) st = Some (Inr (a, st')) \<Longrightarrow> p_atom st a st'"
    using e by (rule sound_atom)
  have pl': "\<And>node st a st'. prod_loop (Suc n) node st = Some (Inr (a, st')) \<Longrightarrow> p_prod_loop node st a st'"
    using a pl by (rule sound_prod_loop)
  have p: "\<And>st a st'. parse_prod (Suc n) st = Some (Inr (a, st')) \<Longrightarrow> p_prod st a st'"
    using a pl' by (rule sound_prod)
  have sl': "\<And>node st a st'. sum_loop (Suc n) node st = Some (Inr (a, st')) \<Longrightarrow> p_sum_loop node st a st'"
    using p sl by (rule sound_sum_loop)
  have s: "\<And>st a st'. parse_sum (Suc n) st = Some (Inr (a, st')) \<Longrightarrow> p_sum st a st'"
    using p sl' by (rule sound_sum)
  show ?case using a pl' p sl' s by blast
qed

lemma parse_expr_sound: "parse_expr n st = Some (Inr (a, st')) \<Longrightarrow> p_sum st a st'"
  using parser_sound_all [of n] by (simp del: parse_sum.simps)

subsection \<open>Invariants of a run\<close>

lemma p_progress:
  "p_atom st a st' \<Longrightarrow> progress st a st'"
  "p_prod st a st' \<Longrightarrow> progress st a st'"
  "p_prod_loop node st a st' \<Longrightarrow> progress st a st'"
  "p_sum st a st' \<Longrightarrow> progress st a st'"
  "p_sum_loop node st a st' \<Longrightarrow> progress st a st'"
proof (induction rule: p_atom_p_prod_p_prod_loop_p_sum_p_sum_loop.inducts)
  case (atom_int st t st1)
  then show ?case by (auto simp: progress_def keeps_def elim!: match_SomeE)
next
  case (atom_other st tok)
  then show ?case by (auto simp: progress_def keeps_def)
next
  case (atom_no_lparen st p st1 st2)
  then show ?case by (auto simp: progress_def keeps_def elim!: match_SomeE match_NoneE)
next
  case (atom_no_arg1 st p st1 l st2 st3)
  then show ?case by (auto simp: progress_def keeps_def elim!: match_SomeE match_NoneE)
next
  case (atom_no_comma st p st1 l st2 a1 st3 st4 tok)
  then show ?case by (auto simp: progress_def keeps_def elim!: match_SomeE match_NoneE)
next
  case (atom_no_arg2 st p st1 l st2 a1 st3 c st4 st5)
  then show ?case by (auto simp: progress_def keeps_def elim!: match_SomeE match_NoneE)
next
  case (atom_no_rparen st p st1 l st2 a1 st3 c st4 a2 st5 st6 tok)
  then show ?case by (auto simp: progress_def keeps_def elim!: match_SomeE match_NoneE)
next
  case (atom_pow st p st1 l st2 a1 st3 c st4 a2 st5 r st6)
  then show ?case by (auto simp: progress_def keeps_def elim!: match_SomeE match_NoneE)
next
  case (prod_fail st st1)
  then show ?case by (auto simp: progress_def keeps_def)
next
  case (prod_single st nd st1 st2)
  then show ?case by (auto simp: progress_def keeps_def parse_prod_tail_def elim!: parse_tail_FalseE)
next
  case (prod_chain st nd st1 st2 a st3)
  then show ?case by (auto simp: progress_def keeps_def parse_prod_tail_def elim!: parse_tail_TrueE split: option.splits)
next
  case (prod_loop_fail st st1 node)
  then show ?case by (auto simp: progress_def keeps_def)
next
  case (prod_loop_last st r st1 st2 node)
  then show ?case by (auto simp: progress_def keeps_def parse_prod_tail_def elim!: parse_tail_FalseE)
next
  case (prod_loop_more st r st1 st2 node a st3)
  then show ?case by (auto simp: progress_def keeps_def parse_prod_tail_def elim!: parse_tail_TrueE split: option.splits)
next
  case (sum_fail st st1)
  then show ?case by (auto simp: progress_def keeps_def)
next
  case (sum_single st nd st1 st2)
  then show ?case by (auto simp: progress_def keeps_def parse_sum_tail_def elim!: parse_tail_FalseE)
next
  case (sum_chain st nd st1 st2 a st3)
  then show ?case by (auto simp: progress_def keeps_def parse_sum_tail_def elim!: parse_tail_TrueE split: option.splits)
next
  case (sum_loop_fail st st1 node)
  then show ?case by (auto simp: progress_def keeps_def)
next
  case (sum_loop_last st r st1 st2 node)
  then show ?case by (auto simp: progress_def keeps_def parse_sum_tail_def elim!: parse_tail_FalseE)
next
  case (sum_loop_more st r st1 st2 node a st3)
  then show ?case by (auto simp: progress_def keeps_def parse_sum_tail_def elim!: parse_tail_TrueE split: option.splits)
qed

lemma p_err_rel:
  "p_atom st a st' \<Longrightarrow> err_rel st a st'"
  "p_prod st a st' \<Longrightarrow> err_rel st a st'"
  "p_prod_loop node st a st' \<Longrightarrow> err_rel st a st'"
  "p_sum st a st' \<Longrightarrow> err_rel st a st'"
  "p_sum_loop node st a st' \<Longrightarrow> err_rel st a st'"
proof (induction rule: p_atom_p_prod_p_prod_loop_p_sum_p_sum_loop.inducts)
  case (atom_int st t st1)
  then show ?case by (auto simp: err_rel_def elim!: match_SomeE)
next
  case (atom_other st tok)
  then show ?case by (auto simp: err_rel_def failure_diags_def diag_at_def)
next
  case (atom_no_lparen st p st1 st2)
  then show ?case by (auto simp: err_rel_def failure_diags_def diag_at_def elim!: match_SomeE match_NoneE)
next
  case (atom_no_arg1 st p st1 l st2 st3)
  then show ?case by (auto simp: err_rel_def elim!: match_SomeE match_NoneE)
next
  case (atom_no_comma st p st1 l st2 a1 st3 st4 tok)
  then show ?case by (auto simp: err_rel_def failure_diags_def diag_at_def elim!: match_SomeE match_NoneE)
next
  case (atom_no_arg2 st p st1 l st2 a1 st3 c st4 st5)
  then show ?case by (auto simp: err_rel_def elim!: match_SomeE match_NoneE)
next
  case (atom_no_rparen st p st1 l st2 a1 st3 c st4 a2 st5 st6 tok)
  then show ?case by (auto simp: err_rel_def failure_diags_def diag_at_def elim!: match_SomeE match_NoneE)
next
  case (atom_pow st p st1 l st2 a1 st3 c st4 a2 st5 r st6)
  then show ?case by (auto simp: err_rel_def elim!: match_SomeE match_NoneE)
next
  case (prod_fail st st1)
  then show ?case by (auto simp: err_rel_def)
next
  case (prod_single st nd st1 st2)
  then show ?case by (auto simp: err_rel_def parse_prod_tail_def elim!: parse_tail_FalseE)
next
  case (prod_chain st nd st1 st2 a st3)
  then show ?case by (auto simp: err_rel_def parse_prod_tail_def elim!: parse_tail_TrueE split: option.splits)
next
  case (prod_loop_fail st st1 node)
  then show ?case by (auto simp: err_rel_def)
next
  case (prod_loop_last st r st1 st2 node)
  then show ?case by (auto simp: err_rel_def parse_prod_tail_def elim!: parse_tail_FalseE)
next
  case (prod_loop_more st r st1 st2 node a st3)
  then show ?case by (auto simp: err_rel_def parse_prod_tail_def elim!: parse_tail_TrueE split: option.splits)
next
  case (sum_fail st st1)
  then show ?case by (auto simp: err_rel_def)
next
  case (sum_single st nd st1 st2)
  then show ?case by (auto simp: err_rel_def parse_sum_tail_def elim!: parse_tail_FalseE)
next
  case (sum_chain st nd st1 st2 a st3)
  then show ?case by (auto simp: err_rel_def parse_sum_tail_def elim!: parse_tail_TrueE split: option.splits)
next
  case (sum_loop_fail st st1 node)
  then show ?case by (auto simp: err_rel_def)
next
  case (sum_loop_last st r st1 st2 node)
  then show ?case by (auto simp: err_rel_def parse_sum_tail_def elim!: parse_tail_FalseE)
next
  case (sum_loop_more st r st1 st2 node a st3)
  then show ?case by (auto simp: err_rel_def parse_sum_tail_def elim!: parse_tail_TrueE split: option.splits)
qed

subsection \<open>Enough fuel\<close>

lemma parse_atom_sound: "parse_atom n st = Some (Inr (a, st')) \<Longrightarrow> p_atom st a st'"
  using parser_sound_all [of n] by blast

lemma parse_prod_sound: "parse_prod n st = Some (Inr (a, st')) \<Longrightarrow> p_prod st a st'"
  using parser_sound_all [of n] by blast

lemma parse_sum_sound: "parse_sum n st = Some (Inr (a, st')) \<Longrightarrow> p_sum st a st'"
  using parser_sound_all [of n] by blast

lemma ok_ret: "ok (ret a st)"
  by (simp add: ok_def ret_def)

lemma ok_bind:
  assumes "ok m" and "\<And>a st1. m = Some (Inr (a, st1)) \<Longrightarrow> ok (f a st1)"
  shows "ok (bindP m f)"
  using assms by (auto simp: ok_def bindP_def)

lemma ok_case_option:
  assumes "a = None \<Longrightarrow> ok f" and "\<And>x. a = Some x \<Longrightarrow> ok (g x)"
  shows "ok (case a of None \<Rightarrow> f | Some x \<Rightarrow> g x)"
  using assms by (cases a) simp_all

lemma ok_if:
  assumes "b \<Longrightarrow> ok f" and "\<not> b \<Longrightarrow> ok g"
  shows "ok (if b then f else g)"
  using assms by simp

lemma ok_match: "current_token st \<noteq> None \<Longrightarrow> ok (Some (match ty st))"
  by (cases "current_token st"; cases st rule: advance_cases) (auto simp: ok_def match_def)

lemma ok_parse_tail: "current_token st \<noteq> None \<Longrightarrow> ok (Some (parse_tail op st))"
  by (cases "current_token st"; cases st rule: advance_cases)
     (auto simp: ok_def parse_tail_def match_def)

lemma ok_error_here: "current_token st \<noteq> None \<Longrightarrow> ok (error_here m st)"
  by (cases "current_token st") (auto simp: ok_def error_here_def ret_def)

lemma total_atom:
  assumes IH: "\<And>st. current_token st \<noteq> None \<Longrightarrow> remaining st < n \<Longrightarrow> ok (parse_expr n st)"
    and c: "current_token st \<noteq> None" and r: "remaining st < Suc n"
  shows "ok (parse_atom (Suc n) st)"
proof -
  from c obtain tok where tok: "current_token st = Some tok" by blast
  consider (int) "ttype tok = INT_T" | (pow) "ttype tok = POW"
    | (other) "ttype tok \<noteq> INT_T" "ttype tok \<noteq> POW" by blast
  then show ?thesis
  proof cases
    case int
    have "ok (bindP (Some (match INT_T st)) (\<lambda>token st1.
              case token of
                None \<Rightarrow> ret None st1
              | Some t \<Rightarrow> ret (Some (INT_node (tvalue t))) st1))"
      by (intro ok_bind ok_case_option ok_ret ok_match c)
    then show ?thesis using tok int by simp
  next
    case other
    then show ?thesis using tok ok_error_here [OF c] by simp
  next
    case pow
    have "ok (bindP (Some (match POW st)) (\<lambda>pow_token st1.
              case pow_token of
                None \<Rightarrow> ret None st1
              | Some _ \<Rightarrow>
            bindP (Some (match LPAREN st1)) (\<lambda>lparen st2.
              case lparen of
                None \<Rightarrow> ret None st2
              | Some _ \<Rightarrow>
            bindP (parse_expr n st2) (\<lambda>arg1 st3.
              case arg1 of
                None \<Rightarrow> ret None st3
              | Some a1 \<Rightarrow>
            bindP (Some (match COMMA st3)) (\<lambda>comma st4.
              case comma of
                None \<Rightarrow> error_here ExpectedComma st4
              | Some _ \<Rightarrow>
            bindP (parse_expr n st4) (\<lambda>arg2 st5.
              case arg2 of
                None \<Rightarrow> ret None st5
              | Some a2 \<Rightarrow>
            bindP (Some (match RPAREN st5)) (\<lambda>rparen st6.
              case rparen of
                None \<Rightarrow> error_here ExpectedRParen st6
              | Some _ \<Rightarrow> ret (Some (Pow_node a1 a2)) st6)))))))"
      apply (intro ok_bind ok_case_option ok_ret ok_match ok_error_here IH c)
      using tok pow r
                apply (auto elim!: match_SomeE match_NoneE
                        dest!: parse_expr_sound p_progress(4) simp: progress_def keeps_def
                        simp del: parse_expr.simps parse_sum.simps parse_prod.simps)
      done
    then show ?thesis using tok pow by (simp del: parse_expr.simps)
  qed
qed

lemma ok_prod_tail: "current_token st \<noteq> None \<Longrightarrow> ok (Some (parse_prod_tail st))"
  unfolding parse_prod_tail_def by (rule ok_parse_tail)

lemma ok_sum_tail: "current_token st \<noteq> None \<Longrightarrow> ok (Some (parse_sum_tail st))"
  unfolding parse_sum_tail_def by (rule ok_parse_tail)

lemma total_prod_loop:
  assumes atom: "\<And>st. current_token st \<noteq> None \<Longrightarrow> remaining st < Suc n \<Longrightarrow> ok (parse_atom (Suc n) st)"
    and IH: "\<And>node st. current_token st \<noteq> None \<Longrightarrow> remaining st < n \<Longrightarrow> ok (prod_loop n node st)"
    and c: "current_token st \<noteq> None" and r: "remaining st < Suc n"
  shows "ok (prod_loop (Suc n) node st)"
  unfolding prod_loop.simps
  apply (intro ok_bind ok_case_option ok_if ok_ret ok_prod_tail atom IH c r)
  using r
    apply (auto elim!: parse_tail_TrueE parse_tail_FalseE
            dest!: parse_atom_sound p_progress(1) simp: progress_def keeps_def parse_prod_tail_def
            simp del: parse_atom.simps)
  done

lemma total_prod:
  assumes atom: "\<And>st. current_token st \<noteq> None \<Longrightarrow> remaining st < n \<Longrightarrow> ok (parse_atom n st)"
    and loop: "\<And>node st. current_token st \<noteq> None \<Longrightarrow> remaining st < n \<Longrightarrow> ok (prod_loop n node st)"
    and c: "current_token st \<noteq> None" and r: "remaining st < n"
  shows "ok (parse_prod n st)"
  unfolding parse_prod.simps
  apply (intro ok_bind ok_case_option ok_if ok_ret ok_prod_tail atom loop c r)
  using r
    apply (auto elim!: parse_tail_TrueE parse_tail_FalseE
            dest!: parse_atom_sound p_progress(1) simp: progress_def keeps_def parse_prod_tail_def
            simp del: parse_atom.simps)
  done

lemma total_sum_loop:
  assumes prod: "\<And>st. current_token st \<noteq> None \<Longrightarrow> remaining st < Suc n \<Longrightarrow> ok (parse_prod (Suc n) st)"
    and IH: "\<And>node st. current_token st \<noteq> None \<Longrightarrow> remaining st < n \<Longrightarrow> ok (sum_loop n node st)"
    and c: "current_token st \<noteq> None" and r: "remaining st < Suc n"
  shows "ok (sum_loop (Suc n) node st)"
  unfolding sum_loop.simps
  apply (intro ok_bind ok_case_option ok_if ok_ret ok_sum_tail prod IH c r)
  using r
    apply (auto elim!: parse_tail_TrueE parse_tail_FalseE
            dest!: parse_prod_sound p_progress(2) simp: progress_def keeps_def parse_sum_tail_def
            simp del: parse_prod.simps)
  done

lemma total_sum:
  assumes prod: "\<And>st. current_token st \<noteq> None \<Longrightarrow> remaining st < n \<Longrightarrow> ok (parse_prod n st)"
    and loop: "\<And>node st. current_token st \<noteq> None \<Longrightarrow> remaining st < n \<Longrightarrow> ok (sum_loop n node st)"
    and c: "current_token st \<noteq> None" and r: "remaining st < n"
  shows "ok (parse_sum n st)"
  unfolding parse_sum.simps
  apply (intro ok_bind ok_case_option ok_if ok_ret ok_sum_tail prod loop c r)
  using r
    apply (auto elim!: parse_tail_TrueE parse_tail_FalseE
            dest!: parse_prod_sound p_progress(2) simp: progress_def keeps_def parse_sum_tail_def
            simp del: parse_prod.simps)
  done

lemma parser_total_all:
  "(\<forall>st. current_token st \<noteq> None \<longrightarrow> remaining st < n \<longrightarrow> ok (parse_atom n st))
   \<and> (\<forall>node st. current_token st \<noteq> None \<longrightarrow> remaining st < n \<longrightarrow> ok (prod_loop n node st))
   \<and> (\<forall>st. current_token st \<noteq> None \<longrightarrow> remaining st < n \<longrightarrow> ok (parse_prod n st))
   \<and> (\<forall>node st. current_token st \<noteq> None \<longrightarrow> remaining st < n \<longrightarrow> ok (sum_loop n node st))
   \<and> (\<forall>st. current_token st \<noteq> None \<longrightarrow> remaining st < n \<longrightarrow> ok (parse_sum n st))"
proof (induction n)
  case 0
  show ?case by simp
next
  case (Suc n)
  then have e: "\<And>st. current_token st \<noteq> None \<Longrightarrow> remaining st < n \<Longrightarrow> ok (parse_expr n st)"
    and pl: "\<And>node st. current_token st \<noteq> None \<Longrightarrow> remaining st < n \<Longrightarrow> ok (prod_loop n node st)"
    and sl: "\<And>node st. current_token st \<noteq> None \<Longrightarrow> remaining st < n \<Longrightarrow> ok (sum_loop n node st)"
    by (simp_all del: parse_sum.simps parse_prod.simps add: parse_expr.simps)
  have a: "\<And>st. current_token st \<noteq> None \<Longrightarrow> remaining st < Suc n \<Longrightarrow> ok (parse_atom (Suc n) st)"
    using e by (rule total_atom)
  have pl': "\<And>node st. current_token st \<noteq> None \<Longrightarrow> remaining st < Suc n \<Longrightarrow> ok (prod_loop (Suc n) node st)"
    using a pl by (rule total_prod_loop)
  have p: "\<And>st. current_token st \<noteq> None \<Longrightarrow> remaining st < Suc n \<Longrightarrow> ok (parse_prod (Suc n) st)"
    using a pl' by (rule total_prod)
  have sl': "\<And>node st. current_token st \<noteq> None \<Longrightarrow> remaining st < Suc n \<Longrightarrow> ok (sum_loop (Suc n) node st)"
    using p sl by (rule total_sum_loop)
  have s: "\<And>st. current_token st \<noteq> None \<Longrightarrow> remaining st < Suc n \<Longrightarrow> ok (parse_sum (Suc n) st)"
    using p sl' by (rule total_sum)
  show ?case using a pl' p sl' s by blast
qed

lemma parse_expr_total:
  "current_token st \<noteq> None \<Longrightarrow> remaining st < n \<Longrightarrow> ok (parse_expr n st)"
  using parser_total_all [of n] by (simp del: parse_sum.simps)

lemma Parser_init_nonempty:
  assumes "ts \<noteq> []"
  shows "Parser_init ts = Inr \<lparr>tokens = ts, pos = 1, current_token = Some (hd ts), errors = []\<rparr>"
  using assms by (cases ts) (simp_all add: Parser_init_def advance_def index_def)

lemma parse_total:
  assumes "ts \<noteq> []" and "length ts \<le> n"
  shows "\<exists>a st. parse n ts = Some (Inr (a, st)) \<and> tokens st = ts \<and> current_token st \<noteq> None"
proof -
  let ?st0 = "\<lparr>tokens = ts, pos = 1, current_token = Some (hd ts), errors = []\<rparr>"
  have i: "Parser_init ts = Inr ?st0" using assms(1) by (rule Parser_init_nonempty)
  have "remaining ?st0 < n" using assms by (cases ts) (simp_all add: remaining_def)
  then have "ok (parse_expr n ?st0)" by (intro parse_expr_total) simp_all
  then obtain a st1 where e: "parse_expr n ?st0 = Some (Inr (a, st1))"
    by (auto simp: ok_def)
  then have "progress ?st0 a st1" by (intro p_progress(4) parse_expr_sound)
  then have k: "tokens st1 = ts" "current_token st1 \<noteq> None" by (simp_all add: progress_def keeps_def)
  then obtain tok where tok: "current_token st1 = Some tok" by blast
  show ?thesis
    using i e k tok by (simp add: parse_def bindP_def ret_def del: parse_expr.simps)
qed

subsection \<open>Termination and diagnostics\<close>

text \<open>
  Claim C10. With a token list that is not empty (in particular one that ends with EOF)
  and fuel of at least its length, \<open>parse\<close> returns normally: it does not run out of
  fuel and raises nothing, so no index is out of range and \<open>current_token\<close> is never
  None. More generally each nonterminal returns normally from every state that has a
  current token when the fuel exceeds the number of tokens not yet consumed: the depth
  of the descent is bounded by the remaining-token count. \<open>_advance\<close> never raises, and
  once the position has reached the end of the list it leaves the state as it is.
\<close>

theorem parse_terminates:
  "(ts \<noteq> [] \<and> length ts \<le> n \<longrightarrow>
      (\<exists>a st'. parse n ts = Some (Inr (a, st')) \<and> tokens st' = ts \<and> current_token st' \<noteq> None))
   \<and> (current_token st \<noteq> None \<and> remaining st < n \<longrightarrow>
        ok (parse_expr n st) \<and> ok (parse_sum n st) \<and> ok (parse_prod n st) \<and> ok (parse_atom n st))
   \<and> (length (tokens st) \<le> pos st \<longrightarrow> advance st = Inr st)
   \<and> (\<exists>st'. advance st = Inr st')"
proof (intro conjI impI)
  assume "ts \<noteq> [] \<and> length ts \<le> n"
  then show "\<exists>a st'. parse n ts = Some (Inr (a, st')) \<and> tokens st' = ts \<and> current_token st' \<noteq> None"
    by (intro parse_total) simp_all
next
  assume a: "current_token st \<noteq> None \<and> remaining st < n"
  then show "ok (parse_expr n st)" and "ok (parse_sum n st)" and "ok (parse_prod n st)"
    and "ok (parse_atom n st)"
    using parser_total_all [of n] by (simp_all del: parse_sum.simps parse_prod.simps)
next
  assume "length (tokens st) \<le> pos st"
  then show "advance st = Inr st" by (simp add: advance_def)
next
  show "\<exists>st'. advance st = Inr st'" by (cases st rule: advance_cases) simp_all
qed

theorem parse_terminates_witness:
  "(\<exists>a st'. parse 2 [Token INT_T (IntValue 7) 1 1, Token EOF NoValue 1 2] = Some (Inr (a, st'))
       \<and> tokens st' = [Token INT_T (IntValue 7) 1 1, Token EOF NoValue 1 2]
       \<and> current_token st' \<noteq> None)
   \<and> advance \<lparr>tokens = [Token EOF NoValue 1 1], pos = 1,
               current_token = Some (Token EOF NoValue 1 1), errors = []\<rparr>
     = Inr \<lparr>tokens = [Token EOF NoValue 1 1], pos = 1,
             current_token = Some (Token EOF NoValue 1 1), errors = []\<rparr>"
proof -
  let ?ts = "[Token INT_T (IntValue 7) 1 1, Token EOF NoValue 1 2]"
  let ?st = "\<lparr>tokens = [Token EOF NoValue 1 1], pos = 1,
               current_token = Some (Token EOF NoValue 1 1), errors = []\<rparr>"
  have h: "?ts \<noteq> [] \<and> length ?ts \<le> 2" by simp
  have g: "length (tokens ?st) \<le> pos ?st" by simp
  note t = parse_terminates [of ?ts 2 ?st]
  from t [THEN conjunct1, THEN mp, OF h]
    t [THEN conjunct2, THEN conjunct2, THEN conjunct1, THEN mp, OF g]
  show ?thesis by (intro conjI)
qed

text \<open>
  Claim C4, as stated, fails. The text pow(2 3) has no comma: \<open>_match\<close> records that a
  COMMA was expected, \<open>parse_atom\<close> records the missing comma once more, and \<open>parse\<close>, finding
  that the token at which the parse stopped is not EOF, records a third diagnostic.
\<close>

theorem parse_failure_counterexample:
  "parse_report 8 (scan ''pow(2 3)'')
     = Some (Inr (None, [SyntaxError 1 7 (Expected COMMA INT_T), SyntaxError 1 7 ExpectedComma,
                         SyntaxError 1 7 (TrailingToken INT_T)]))"
  by code_simp

text \<open>
  Claim C4, amended. When \<open>parse\<close> returns, all its diagnostics are placed at the token
  that is current then, the token at which the parse stopped. If the parse failed
  (the tree is None), the first unmet expectation has halted it and has left one
  diagnostic, or two when the unmet expectation is the comma or the closing parenthesis
  of pow (one from \<open>_match\<close>, one from \<open>parse_atom\<close>); \<open>parse\<close> adds one more when the token
  at which the parse stopped is not EOF; there are no others, so a failed parse leaves
  between one and three diagnostics. If the parse returned a tree, the only possible
  diagnostic is the one for a token that is not EOF.
\<close>

theorem parse_failure_diagnostics:
  assumes "parse n ts = Some (Inr (a, st))"
  shows "\<exists>tok. current_token st = Some tok
           \<and> (case a of
                Some _ \<Rightarrow> errors st = trailing_diags tok
              | None \<Rightarrow> (\<exists>ds. failure_diags tok ds \<and> errors st = ds @ trailing_diags tok)
                         \<and> 1 \<le> length (errors st) \<and> length (errors st) \<le> 3)"
proof -
  from assms obtain st0 where i: "Parser_init ts = Inr st0"
    by (cases "Parser_init ts") (simp_all add: parse_def)
  have e0: "errors st0 = []"
    using i by (auto simp: Parser_init_def advance_def index_def split: if_splits)
  from assms i obtain st1 tok where e: "parse_expr n st0 = Some (Inr (a, st1))"
    and tok: "current_token st1 = Some tok"
    and st: "st = (if ttype tok \<noteq> EOF
                   then add_error (TrailingToken (ttype tok)) (tline tok) (tcol tok) st1 else st1)"
    by (auto simp: parse_def elim!: bindP_InrE split: option.splits if_splits
          simp del: parse_expr.simps)
  have c: "current_token st = Some tok" using st tok by simp
  have t: "errors st = errors st1 @ trailing_diags tok"
    using st by (simp add: trailing_diags_def diag_at_def)
  have r: "err_rel st0 a st1" using e by (intro p_err_rel(4) parse_expr_sound)
  show ?thesis
  proof (cases a)
    case (Some x)
    then show ?thesis using r c t e0 by (simp add: err_rel_def)
  next
    case None
    then obtain ds where "failure_diags tok ds" and "errors st1 = ds"
      using r tok e0 by (auto simp: err_rel_def)
    then show ?thesis using None c t
      by (auto simp: failure_diags_def trailing_diags_def)
  qed
qed

theorem parse_failure_diagnostics_witness:
  "\<exists>tok. current_token
            \<lparr>tokens = [Token PLUS NoValue 1 1, Token EOF NoValue 1 2], pos = 1,
               current_token = Some (Token PLUS NoValue 1 1),
               errors = [SyntaxError 1 1 (ExpectedIntOrPow PLUS), SyntaxError 1 1 (TrailingToken PLUS)]\<rparr>
          = Some tok
        \<and> (\<exists>ds. failure_diags tok ds
              \<and> [SyntaxError 1 1 (ExpectedIntOrPow PLUS), SyntaxError 1 1 (TrailingToken PLUS)]
                  = ds @ trailing_diags tok)"
proof -
  have p: "parse 2 (scan ''+'')
      = Some (Inr (None, \<lparr>tokens = [Token PLUS NoValue 1 1, Token EOF NoValue 1 2], pos = 1,
               current_token = Some (Token PLUS NoValue 1 1),
               errors = [SyntaxError 1 1 (ExpectedIntOrPow PLUS), SyntaxError 1 1 (TrailingToken PLUS)]\<rparr>))"
    by code_simp
  show ?thesis using parse_failure_diagnostics [OF p] by simp
qed


end
